theory Spec2Isabelle
  imports Main "HOL-Library.Sublist"
begin

section \<open>The Go standard-library string functions the package calls\<close>

text \<open>
  A Go \<open>string\<close> is a sequence of bytes, and so is \<^typ>\<open>string\<close> here.
  \<open>strings.Index(s, sep)\<close> is the position of the first occurrence of \<open>sep\<close> in \<open>s\<close>
  (\<open>-1\<close>, here \<open>None\<close>, when there is none).
\<close>

fun Index :: "string \<Rightarrow> string \<Rightarrow> nat option" where
  "Index [] sep = (if sep = [] then Some 0 else None)"
| "Index (c # cs) sep =
     (if prefix sep (c # cs) then Some 0 else map_option Suc (Index cs sep))"

text \<open>
  \<open>strings.Split(s, sep)\<close>, as \<open>genSplit\<close> computes it: with an empty separator the
  string is exploded into its characters (bytes here; the package never passes an empty
  separator); otherwise the string is cut at the first occurrence of \<open>sep\<close>, the
  search goes on behind it, and what is left when \<open>sep\<close> no longer occurs is the
  last piece.
\<close>

function Split :: "string \<Rightarrow> string \<Rightarrow> string list" where
  "Split s sep =
     (if sep = [] then map (\<lambda>c. [c]) s
      else case Index s sep of
             None \<Rightarrow> [s]
           | Some m \<Rightarrow> take m s # Split (drop (m + length sep) s) sep)"
  by pat_completeness auto
termination
proof (relation "measure (\<lambda>(s, sep). length s)")
  show "wf (measure (\<lambda>(s, sep). length s))" by simp
next
  fix s sep :: string and m :: nat
  assume sep: "sep \<noteq> []" and m: "Index s sep = Some m"
  have bound: "Index t sep = Some i \<Longrightarrow> i + length sep \<le> length t" for t i
  proof (induction t arbitrary: i)
    case Nil
    then show ?case by (simp split: if_splits)
  next
    case (Cons c cs)
    show ?case
    proof (cases "prefix sep (c # cs)")
      case True
      with Cons.prems have "i = 0" by simp
      with prefix_length_le [OF True] show ?thesis by simp
    next
      case False
      with Cons.prems obtain j where j: "Index cs sep = Some j" and i: "i = Suc j"
        by auto
      from Cons.IH [OF j] i show ?thesis by simp
    qed
  qed
  from sep bound [OF m] have "0 < length sep" and "m + length sep \<le> length s"
    by simp_all
  then have "length s - (m + length sep) < length s"
    by arith
  then show "((drop (m + length sep) s, sep), (s, sep)) \<in> measure (\<lambda>(s, sep). length s)"
    by simp
qed

declare Split.simps [simp del]

text \<open>\<open>strings.Join(elems, sep)\<close>.\<close>

fun Join :: "string list \<Rightarrow> string \<Rightarrow> string" where
  "Join [] sep = []"
| "Join [x] sep = x"
| "Join (x # y # ys) sep = x @ sep @ Join (y # ys) sep"

text \<open>\<open>strings.ContainsAny(s, chars)\<close>, for ASCII \<open>chars\<close>.\<close>

definition ContainsAny :: "string \<Rightarrow> string \<Rightarrow> bool" where
  "ContainsAny s chars = (\<exists>c \<in> set chars. c \<in> set s)"

section \<open>Constants and data of the package\<close>

definition operatorEqual :: string where "operatorEqual = ''eq''"
definition operatorNotEqual :: string where "operatorNotEqual = ''neq''"
definition operatorGreaterThan :: string where "operatorGreaterThan = ''gt''"
definition operatorGreaterThanEqual :: string where "operatorGreaterThanEqual = ''gte''"
definition operatorLowerThan :: string where "operatorLowerThan = ''lt''"
definition operatorLowerThanEqual :: string where "operatorLowerThanEqual = ''lte''"
definition operatorLike :: string where "operatorLike = ''like''"
definition operatorRange :: string where "operatorRange = ''rng''"

definition sqlOperatorEqual :: string where "sqlOperatorEqual = ''=''"
definition sqlOperatorNotEqual :: string where "sqlOperatorNotEqual = ''<>''"
definition sqlOperatorGreaterThan :: string where "sqlOperatorGreaterThan = ''>''"
definition sqlOperatorGreaterThanEqual :: string where "sqlOperatorGreaterThanEqual = ''>=''"
definition sqlOperatorLowerThan :: string where "sqlOperatorLowerThan = ''<''"
definition sqlOperatorLowerThanEqual :: string where "sqlOperatorLowerThanEqual = ''<=''"
definition sqlOperatorLike :: string where "sqlOperatorLike = ''ILIKE''"
definition sqlOperatorRange :: string where "sqlOperatorRange = ''BETWEEN''"

record Field =
  Name :: string
  Value :: string
  Operator :: string

text \<open>
  \<open>limit\<close> and \<open>offset\<close> are Go \<open>int\<close>s; the package only stores and compares
  them, so no arithmetic can overflow and \<^typ>\<open>int\<close> stands for them.
\<close>

record Options =
  limit :: int
  offset :: int
  fields' :: "Field list"

text \<open>
  Every error of the package is an \<open>fmt.Errorf\<close> with a fixed message; one constructor
  per message. \<open>IndexOutOfRange\<close> is the run-time panic of an index expression,
  \<open>UnexportedField\<close> the panic of \<open>reflect.Value.Interface\<close> on a value obtained
  from an unexported field.
\<close>

datatype error =
    BadQuery            \<comment> \<open>"bad query, use operator:value"\<close>
  | BadOperator         \<comment> \<open>"bad operator"\<close>
  | FailedParseLimit    \<comment> \<open>"failed to parse limit"\<close>
  | NegativeLimit       \<comment> \<open>"limit must be greater than 0"\<close>
  | FailedParseOffset   \<comment> \<open>"failed to parse offset"\<close>
  | NegativeOffset      \<comment> \<open>"offset must be greater than 0"\<close>
  | InvalidRange        \<comment> \<open>"invalid usage of operator rng. rng:value1:to:value2"\<close>
  | IndexOutOfRange     \<comment> \<open>panic: index out of range\<close>
  | UnexportedField     \<comment> \<open>panic: cannot return value obtained from unexported field\<close>

section \<open>validateOperator, convertOperator\<close>

definition validateOperator :: "string \<Rightarrow> error option" where
  "validateOperator operator =
     (if operator = sqlOperatorEqual then None
      else if operator = sqlOperatorNotEqual then None
      else if operator = sqlOperatorGreaterThan then None
      else if operator = sqlOperatorGreaterThanEqual then None
      else if operator = sqlOperatorLowerThan then None
      else if operator = sqlOperatorLowerThanEqual then None
      else if operator = sqlOperatorLike then None
      else if operator = sqlOperatorRange then None
      else Some BadOperator)"

definition convertOperator :: "string \<Rightarrow> error + string" where
  "convertOperator operator =
     (if operator = operatorEqual then Inr sqlOperatorEqual
      else if operator = operatorNotEqual then Inr sqlOperatorNotEqual
      else if operator = operatorGreaterThan then Inr sqlOperatorGreaterThan
      else if operator = operatorGreaterThanEqual then Inr sqlOperatorGreaterThanEqual
      else if operator = operatorLowerThan then Inr sqlOperatorLowerThan
      else if operator = operatorLowerThanEqual then Inr sqlOperatorLowerThanEqual
      else if operator = operatorLike then Inr sqlOperatorLike
      else if operator = operatorRange then Inr sqlOperatorRange
      else Inl BadOperator)"

section \<open>parseQuery\<close>

definition parseQuery :: "string \<Rightarrow> string \<Rightarrow> error + Field" where
  "parseQuery name query =
     (let args = Split query '':'' in
      if length args < 2 then Inl BadQuery
      else if length (Split (args ! 0) '' '') > 1 then Inl BadQuery
      else case convertOperator (args ! 0) of
             Inl err \<Rightarrow> Inl err
           | Inr operator \<Rightarrow>
               Inr \<lparr>Name = name, Value = Join (drop 1 args) '' '', Operator = operator\<rparr>)"

section \<open>Options.AddField\<close>

text \<open>
  The method mutates its receiver; the model returns the updated \<open>Options\<close>, or the
  error, in which case the receiver is left as it was.
\<close>

definition AddField :: "Options \<Rightarrow> string \<Rightarrow> string \<Rightarrow> string \<Rightarrow> error + Options" where
  "AddField o' name value operator =
     (case validateOperator operator of
        Some err \<Rightarrow> Inl err
      | None \<Rightarrow>
          (let value1 = (if operator = sqlOperatorLike \<and> \<not> ContainsAny value ''%''
                         then ''%'' @ value @ ''%'' else value)
           in if operator = sqlOperatorRange then
                (let args = Split value1 '' to '' in
                 if length args \<noteq> 2 then Inl InvalidRange
                 else Inr (o'\<lparr>fields' := fields' o' @
                        [\<lparr>Name = name, Value = (args ! 0) @ '' '' @ (args ! 1),
                          Operator = operator\<rparr>]\<rparr>))
              else Inr (o'\<lparr>fields' := fields' o' @
                     [\<lparr>Name = name, Value = value1, Operator = operator\<rparr>]\<rparr>)))"

section \<open>The query builder\<close>

text \<open>
  Modelled from the spec: the transaction handle \<open>*gorm.DB\<close> and its methods
  \<open>Where\<close>, \<open>Offset\<close> and \<open>Limit\<close> belong to the external query builder. The
  handle is the ordered list of conditions attached so far, each a clause with its bound
  arguments and all of them combined by AND, an offset and a limit, each \<open>None\<close> until
  it is set.
\<close>

record DB =
  conds :: "(string \<times> string list) list"
  db_offset :: "int option"
  db_limit :: "int option"

definition Where :: "DB \<Rightarrow> string \<Rightarrow> string list \<Rightarrow> DB" where
  "Where tx query args = tx\<lparr>conds := conds tx @ [(query, args)]\<rparr>"

definition Offset :: "DB \<Rightarrow> int \<Rightarrow> DB" where
  "Offset tx n = tx\<lparr>db_offset := Some n\<rparr>"

definition Limit :: "DB \<Rightarrow> int \<Rightarrow> DB" where
  "Limit tx n = tx\<lparr>db_limit := Some n\<rparr>"

section \<open>Options.Apply\<close>

text \<open>
  The loop over \<open>o.fields\<close>. For a range entry the code reads \<open>args[0]\<close> and
  \<open>args[1]\<close> of the value split at spaces, whatever the number of pieces; with fewer
  than two pieces the index expression panics.
\<close>

fun Apply_fields :: "Field list \<Rightarrow> DB \<Rightarrow> error + DB" where
  "Apply_fields [] tx = Inr tx"
| "Apply_fields (option # rest) tx =
     (if Operator option = sqlOperatorRange then
        (let args = Split (Value option) '' '' in
         if length args < 2 then Inl IndexOutOfRange
         else Apply_fields rest
                (Where tx (Name option @ '' '' @ Operator option @ '' ? AND ?'')
                   [args ! 0, args ! 1]))
      else Apply_fields rest
             (Where tx (Name option @ '' '' @ Operator option @ '' ?'') [Value option]))"

definition Apply :: "Options \<Rightarrow> DB \<Rightarrow> error + DB" where
  "Apply o' tx =
     (case Apply_fields (fields' o') tx of
        Inl err \<Rightarrow> Inl err
      | Inr tx1 \<Rightarrow>
          (let tx2 = Offset tx1 (offset o');
               tx3 = (if limit o' > 0 then Limit tx2 (limit o') else tx2)
           in Inr (Offset tx3 (offset o'))))"

text \<open>
  The condition one iteration of the loop attaches for an entry, when it does not panic:
  the clause and the arguments bound to its placeholders.
\<close>

definition Condition :: "Field \<Rightarrow> string \<times> string list" where
  "Condition option =
     (if Operator option = sqlOperatorRange
      then (Name option @ '' '' @ Operator option @ '' ? AND ?'',
            take 2 (Split (Value option) '' ''))
      else (Name option @ '' '' @ Operator option @ '' ?'', [Value option]))"

section \<open>ParseStruct\<close>

text \<open>
  What reflection sees of the record passed in (a struct, by value): its fields in
  declaration order, each with the value of its \<open>query\<close> tag (empty when the field has
  none), whether its name is exported, and its value. The values covered are \<open>bool\<close>,
  \<open>int\<close> and \<open>string\<close> and pointers to them; a nil pointer keeps the type it is
  declared with.
\<close>

datatype gotype = TBool | TInt | TString

datatype scalar = VBool bool | VInt int | VString string

datatype govalue = Plain scalar | Ptr scalar | NilPtr gotype

record StructField =
  Tag :: string
  Exported :: bool
  FieldValue :: govalue

text \<open>
  \<open>value.Kind() == reflect.Ptr && value.IsNil()\<close> skips the field, exported or not;
  otherwise \<open>reflect.Indirect(value).Interface()\<close> is the value itself or what the
  pointer points to, and panics when the field is not exported.
\<close>

fun Indirect :: "govalue \<Rightarrow> scalar option" where
  "Indirect (Plain v) = Some v"
| "Indirect (Ptr v) = Some v"
| "Indirect (NilPtr t) = None"

text \<open>The first case of the switch on \<open>field.Type\<close>: the field is declared as a pointer to \<open>bool\<close>.\<close>

fun IsBoolPtr :: "govalue \<Rightarrow> bool" where
  "IsBoolPtr (Ptr (VBool b)) = True"
| "IsBoolPtr (NilPtr TBool) = True"
| "IsBoolPtr v = False"

text \<open>\<open>strconv.Itoa\<close> and \<open>fmt.Sprint\<close> on the values covered.\<close>

function FormatNat :: "nat \<Rightarrow> string" where
  "FormatNat n =
     (if n < 10 then [char_of (48 + n)]
      else FormatNat (n div 10) @ [char_of (48 + n mod 10)])"
  by pat_completeness auto
termination
  by (relation "measure id") auto

declare FormatNat.simps [simp del]

definition Itoa :: "int \<Rightarrow> string" where
  "Itoa i = (if i < 0 then ''-'' @ FormatNat (nat (- i)) else FormatNat (nat i))"

fun Sprint :: "scalar \<Rightarrow> string" where
  "Sprint (VBool b) = (if b then ''true'' else ''false'')"
| "Sprint (VInt i) = Itoa i"
| "Sprint (VString s) = s"

text \<open>One iteration of the loop over the fields: the error returned, or the options
  the next iteration starts from (\<open>continue\<close> leaves them as they are). The tag is read
  before \<open>Interface()\<close> is called, which has no effect of its own, so the panic is the
  first test here.\<close>

definition ParseStruct_field :: "Options \<Rightarrow> StructField \<Rightarrow> error + Options" where
  "ParseStruct_field opt field =
     (case Indirect (FieldValue field) of
        None \<Rightarrow> Inr opt
      | Some fieldValue \<Rightarrow>
          (let tag = Tag field in
           if \<not> Exported field then Inl UnexportedField
           else if tag = ''limit'' then
             (case fieldValue of
                VInt l \<Rightarrow> if l < 0 then Inl NegativeLimit else Inr (opt\<lparr>limit := l\<rparr>)
              | _ \<Rightarrow> Inl FailedParseLimit)
           else if tag = ''offset'' then
             (case fieldValue of
                VInt l \<Rightarrow> if l < 0 then Inl NegativeOffset else Inr (opt\<lparr>offset := l\<rparr>)
              | _ \<Rightarrow> Inl FailedParseOffset)
           else if IsBoolPtr (FieldValue field) then
             AddField opt tag (Sprint fieldValue) operatorEqual
           else
             (let fieldValueStr = Sprint fieldValue in
              if length fieldValueStr = 0 then Inr opt
              else case parseQuery tag fieldValueStr of
                     Inl err \<Rightarrow> Inl err
                   | Inr field \<Rightarrow> AddField opt (Name field) (Value field) (Operator field))))"

fun ParseStruct_loop :: "StructField list \<Rightarrow> Options \<Rightarrow> error + Options" where
  "ParseStruct_loop [] opt = Inr opt"
| "ParseStruct_loop (field # rest) opt =
     (case ParseStruct_field opt field of
        Inl err \<Rightarrow> Inl err
      | Inr opt1 \<Rightarrow> ParseStruct_loop rest opt1)"

definition ParseStruct :: "StructField list \<Rightarrow> error + Options" where
  "ParseStruct data = ParseStruct_loop data \<lparr>limit = 0, offset = 0, fields' = []\<rparr>"

section \<open>What AddField keeps true of the entries\<close>

text \<open>
  The value of a range entry holds a space (\<open>AddField\<close> builds it with
  \<open>"%s %s"\<close>), so \<open>Apply\<close> finds \<open>args[0]\<close> and \<open>args[1]\<close>; the value of a
  pattern entry holds a \<open>%\<close>.
\<close>

definition range_ok :: "Options \<Rightarrow> bool" where
  "range_ok o' =
     (\<forall>f \<in> set (fields' o'). Operator f = sqlOperatorRange \<longrightarrow> CHR '' '' \<in> set (Value f))"

definition like_ok :: "Options \<Rightarrow> bool" where
  "like_ok o' =
     (\<forall>f \<in> set (fields' o'). Operator f = sqlOperatorLike \<longrightarrow> CHR ''%'' \<in> set (Value f))"

section \<open>Facts about the string functions\<close>

lemmas operator_defs =
  operatorEqual_def operatorNotEqual_def operatorGreaterThan_def
  operatorGreaterThanEqual_def operatorLowerThan_def operatorLowerThanEqual_def
  operatorLike_def operatorRange_def

lemmas sqlOperator_defs =
  sqlOperatorEqual_def sqlOperatorNotEqual_def sqlOperatorGreaterThan_def
  sqlOperatorGreaterThanEqual_def sqlOperatorLowerThan_def sqlOperatorLowerThanEqual_def
  sqlOperatorLike_def sqlOperatorRange_def

lemma Index_bound: "Index s sep = Some i \<Longrightarrow> i + length sep \<le> length s"
proof (induction s arbitrary: i)
  case Nil
  then show ?case by (simp split: if_splits)
next
  case (Cons c cs)
  show ?case
  proof (cases "prefix sep (c # cs)")
    case True
    with Cons.prems have "i = 0" by simp
    with prefix_length_le [OF True] show ?thesis by simp
  next
    case False
    with Cons.prems obtain j where j: "Index cs sep = Some j" and i: "i = Suc j"
      by auto
    from Cons.IH [OF j] i show ?thesis by simp
  qed
qed

lemma Index_Some_set: "Index s sep = Some i \<Longrightarrow> set sep \<subseteq> set s"
proof (induction s arbitrary: i)
  case Nil
  then show ?case by (simp split: if_splits)
next
  case (Cons c cs)
  show ?case
  proof (cases "prefix sep (c # cs)")
    case True
    then show ?thesis by (rule set_mono_prefix)
  next
    case False
    with Cons.prems obtain j where "Index cs sep = Some j" by auto
    from Cons.IH [OF this] show ?thesis by auto
  qed
qed

lemma Index_None: "c \<in> set sep \<Longrightarrow> c \<notin> set s \<Longrightarrow> Index s sep = None"
  using Index_Some_set [of s sep] by (cases "Index s sep") auto

lemma Index_append:
  assumes "sep = c # sep'" and "c \<notin> set a"
  shows "Index (a @ sep @ b) sep = Some (length a)"
  using assms(2)
proof (induction a)
  case Nil
  show ?case using assms(1) by simp
next
  case (Cons x a)
  then have "\<not> prefix sep (x # a @ sep @ b)" using assms(1) by auto
  with Cons show ?case by simp
qed

lemma Split_None: "sep \<noteq> [] \<Longrightarrow> Index s sep = None \<Longrightarrow> Split s sep = [s]"
  by (simp add: Split.simps)

lemma Split_append:
  assumes "sep = c # sep'" and "c \<notin> set a"
  shows "Split (a @ sep @ b) sep = a # Split b sep"
proof -
  have "Index (a @ sep @ b) sep = Some (length a)"
    using assms by (rule Index_append)
  moreover have "sep \<noteq> []" using assms(1) by simp
  ultimately show ?thesis
    by (subst Split.simps) simp
qed

lemma Split_not_Nil: "sep \<noteq> [] \<Longrightarrow> Split s sep \<noteq> []"
  by (subst Split.simps) (simp split: option.split)

lemma Index_char:
  "Index s [c] = (if c \<in> set s then Some (length (takeWhile (\<lambda>x. x \<noteq> c) s)) else None)"
  by (induction s) auto

lemma Split_char:
  "Split s [c] =
     (if c \<in> set s
      then takeWhile (\<lambda>x. x \<noteq> c) s # Split (tl (dropWhile (\<lambda>x. x \<noteq> c) s)) [c]
      else [s])"
proof (cases "c \<in> set s")
  case False
  then show ?thesis by (subst Split.simps) (simp add: Index_char)
next
  case True
  let ?n = "length (takeWhile (\<lambda>x. x \<noteq> c) s)"
  have "drop (?n + length [c]) s = tl (drop ?n s)"
    by (simp add: drop_Suc tl_drop)
  also have "drop ?n s = dropWhile (\<lambda>x. x \<noteq> c) s"
    by (rule dropWhile_eq_drop [symmetric])
  finally have d: "drop (?n + length [c]) s = tl (dropWhile (\<lambda>x. x \<noteq> c) s)" .
  have t: "take ?n s = takeWhile (\<lambda>x. x \<noteq> c) s"
    by (rule takeWhile_eq_take [symmetric])
  have "Split s [c] = take ?n s # Split (drop (?n + length [c]) s) [c]"
    using True by (subst Split.simps) (simp add: Index_char)
  with True show ?thesis by (simp only: d t if_True)
qed

lemma length_Split_char: "length (Split s [c]) < 2 \<longleftrightarrow> c \<notin> set s"
  using Split_not_Nil [of "[c]" "tl (dropWhile (\<lambda>x. x \<noteq> c) s)"]
  by (subst Split_char) (cases "Split (tl (dropWhile (\<lambda>x. x \<noteq> c) s)) [c]", auto)

lemma Join_Cons: "ys \<noteq> [] \<Longrightarrow> Join (x # ys) sep = x @ sep @ Join ys sep"
  by (cases ys) simp_all

lemma Join_Split_char:
  "Join (Split s [c]) [d] = map (\<lambda>x. if x = c then d else x) s"
proof (induction "length s" arbitrary: s rule: less_induct)
  case less
  show ?case
  proof (cases "c \<in> set s")
    case False
    then have "map (\<lambda>x. if x = c then d else x) s = s"
      by (induction s) auto
    with False show ?thesis by (subst Split_char) simp
  next
    case True
    let ?P = "\<lambda>x. x \<noteq> c"
    let ?a = "takeWhile ?P s" and ?r = "tl (dropWhile ?P s)"
    from True have dw: "dropWhile ?P s = c # ?r"
    proof (cases "dropWhile ?P s")
      case Nil
      with True show ?thesis by auto
    next
      case (Cons y ys)
      with hd_dropWhile [of ?P s] have "y = c" by simp
      with Cons show ?thesis by simp
    qed
    have s: "s = ?a @ c # ?r"
      using takeWhile_dropWhile_id [of ?P s] dw by simp
    then have "length ?r < length s"
      by (metis length_append length_Cons less_add_Suc2 add_Suc_right)
    from less [OF this] have IH: "Join (Split ?r [c]) [d] = map (\<lambda>x. if x = c then d else x) ?r" .
    have a: "map (\<lambda>x. if x = c then d else x) ?a = ?a"
      by (rule map_idI) (auto dest: set_takeWhileD)
    have "map (\<lambda>x. if x = c then d else x) s = ?a @ d # map (\<lambda>x. if x = c then d else x) ?r"
      by (subst s) (simp add: a del: map_eq_conv)
    moreover have "Join (Split s [c]) [d] = ?a @ [d] @ Join (Split ?r [c]) [d]"
      using True by (subst Split_char) (simp add: Join_Cons Split_not_Nil)
    ultimately show ?thesis using IH by simp
  qed
qed

section \<open>Facts about the operator tables\<close>

lemma convertOperator_Inr:
  "convertOperator operator = Inr sqlop \<Longrightarrow> CHR '':'' \<notin> set operator \<and> CHR '' '' \<notin> set operator"
  by (auto simp: convertOperator_def operator_defs split: if_splits)

lemma convertOperator_Inl: "convertOperator operator = Inl err \<Longrightarrow> err = BadOperator"
  by (simp add: convertOperator_def split: if_splits)

lemma Split_nth0_char: "Split s [c] ! 0 = takeWhile (\<lambda>x. x \<noteq> c) s"
proof (cases "c \<in> set s")
  case True
  then show ?thesis by (subst Split_char) simp
next
  case False
  then have tw: "takeWhile (\<lambda>x. x \<noteq> c) s = s"
    by (intro takeWhile_eq_all_conv [THEN iffD2]) auto
  from False have "Split s [c] = [s]"
    by (subst Split_char) simp
  then show ?thesis by (simp only: tw nth_Cons_0)
qed

section \<open>parseQuery: the value of the entry\<close>

text \<open>
  Claim C2 (as amended). A query made of one of the eight operator codes, a colon and any
  text parses to an entry with the SQL symbol of the code and, as its raw value, the text
  behind the first colon in which every further colon is replaced by one space: the
  pieces are joined with \<open>" "\<close>, not with the colon they were split at.
\<close>

theorem parseQuery_value:
  assumes "convertOperator operator = Inr sqlop"
  shows "parseQuery name (operator @ '':'' @ rest) =
           Inr \<lparr>Name = name,
                Value = map (\<lambda>c. if c = CHR '':'' then CHR '' '' else c) rest,
                Operator = sqlop\<rparr>"
proof -
  from convertOperator_Inr [OF assms]
  have colon: "CHR '':'' \<notin> set operator" and space: "CHR '' '' \<notin> set operator"
    by simp_all
  have args: "Split (operator @ '':'' @ rest) '':'' = operator # Split rest '':''"
    using colon by (intro Split_append [where sep' = "[]"]) simp_all
  have "Split rest '':'' \<noteq> []"
    by (rule Split_not_Nil) simp
  then have len: "\<not> length (Split (operator @ '':'' @ rest) '':'') < 2"
    using args by (cases "Split rest '':''") simp_all
  have op: "\<not> length (Split operator '' '') > 1"
    using space length_Split_char [of operator "CHR '' ''"] by simp
  have val: "Join (Split rest '':'') '' '' = map (\<lambda>c. if c = CHR '':'' then CHR '' '' else c) rest"
    by (rule Join_Split_char)
  show ?thesis
    unfolding parseQuery_def Let_def using len op assms val args
    by simp
qed

text \<open>The theorem at the query \<open>rng:a:to:b\<close>.\<close>

theorem parseQuery_value_witness:
  "parseQuery ''age'' ''rng:a:to:b'' = Inr \<lparr>Name = ''age'', Value = ''a to b'', Operator = ''BETWEEN''\<rparr>"
  using parseQuery_value [of "''rng''" "''BETWEEN''" "''age''" "''a:to:b''"]
  by (simp add: convertOperator_def operator_defs sqlOperator_defs)

text \<open>
  The claim as written gives \<open>a:b\<close> as the value of \<open>eq:a:b\<close>; the code gives
  \<open>a b\<close>. And a colon behind a segment without whitespace is not enough for an entry:
  \<open>equals\<close> is no operator code.
\<close>

theorem parseQuery_colon_counterexample:
  "parseQuery ''n'' ''eq:a:b'' = Inr \<lparr>Name = ''n'', Value = ''a b'', Operator = ''=''\<rparr> \<and>
   parseQuery ''n'' ''eq:a:b'' \<noteq> Inr \<lparr>Name = ''n'', Value = ''a:b'', Operator = ''=''\<rparr> \<and>
   parseQuery ''n'' ''equals:a'' = Inl BadOperator"
  by (simp add: parseQuery_def Split.simps convertOperator_def operator_defs sqlOperator_defs)

section \<open>parseQuery: the malformed queries\<close>

text \<open>
  Claim C7 (as amended). \<open>parseQuery\<close> fails with "bad query, use operator:value"
  exactly when the query has no colon or the text before its first colon contains a
  space character (U+0020). No other whitespace character is looked for.
\<close>

theorem parseQuery_BadQuery_iff:
  "parseQuery name query = Inl BadQuery \<longleftrightarrow>
     CHR '':'' \<notin> set query \<or> CHR '' '' \<in> set (takeWhile (\<lambda>c. c \<noteq> CHR '':'') query)"
proof -
  let ?args = "Split query '':''"
  let ?op = "takeWhile (\<lambda>c. c \<noteq> CHR '':'') query"
  have a: "length ?args < 2 \<longleftrightarrow> CHR '':'' \<notin> set query"
    by (rule length_Split_char)
  have b: "?args ! 0 = ?op"
    by (rule Split_nth0_char)
  have c: "length (Split ?op '' '') > 1 \<longleftrightarrow> CHR '' '' \<in> set ?op"
    using length_Split_char [of ?op "CHR '' ''"] by auto
  have d: "convertOperator ?op \<noteq> Inl BadQuery"
    using convertOperator_Inl [of ?op BadQuery] by auto
  show ?thesis
  proof (cases "length ?args < 2")
    case True
    then show ?thesis using a by (simp add: parseQuery_def)
  next
    case False
    note nolen = this
    show ?thesis
    proof (cases "CHR '' '' \<in> set ?op")
      case True
      then show ?thesis using nolen b c by (simp add: parseQuery_def Let_def)
    next
      case False
      then show ?thesis using nolen a b c d
        by (auto simp: parseQuery_def Let_def split: sum.split)
    qed
  qed
qed

text \<open>The theorem at a query with a space in the operator, one without colon, and a good one.\<close>

theorem parseQuery_BadQuery_iff_witness:
  "parseQuery ''n'' ''e q:1'' = Inl BadQuery \<and> parseQuery ''n'' ''eq1'' = Inl BadQuery \<and>
   parseQuery ''n'' ''eq:1'' \<noteq> Inl BadQuery"
  using parseQuery_BadQuery_iff [of "''n''" "''e q:1''"] parseQuery_BadQuery_iff [of "''n''" "''eq1''"]
     parseQuery_BadQuery_iff [of "''n''" "''eq:1''"]
  by simp

text \<open>
  A tab in the operator segment is not reported as a bad query: the segment goes on to
  \<open>convertOperator\<close>, which answers "bad operator".
\<close>

theorem parseQuery_tab_counterexample:
  "parseQuery ''n'' [CHR ''e'', CHR 0x09, CHR ''q'', CHR '':'', CHR ''1''] = Inl BadOperator"
  by (simp add: parseQuery_def Split.simps convertOperator_def operator_defs sqlOperator_defs)

section \<open>Facts about validateOperator\<close>

lemma validateOperator_None_iff:
  "validateOperator operator = None \<longleftrightarrow>
     operator \<in> {sqlOperatorEqual, sqlOperatorNotEqual, sqlOperatorGreaterThan,
       sqlOperatorGreaterThanEqual, sqlOperatorLowerThan, sqlOperatorLowerThanEqual,
       sqlOperatorLike, sqlOperatorRange}"
  by (simp add: validateOperator_def)

lemma validateOperator_Some: "validateOperator operator = Some err \<Longrightarrow> err = BadOperator"
  by (simp add: validateOperator_def split: if_splits)

lemma validateOperator_Range: "validateOperator sqlOperatorRange = None"
  by (simp add: validateOperator_def)

lemma validateOperator_Like: "validateOperator sqlOperatorLike = None"
  by (simp add: validateOperator_def)

lemma Range_not_Like: "sqlOperatorRange \<noteq> sqlOperatorLike"
  by (simp add: sqlOperator_defs)

lemma ContainsAny_percent: "ContainsAny value ''%'' \<longleftrightarrow> CHR ''%'' \<in> set value"
  by (simp add: ContainsAny_def)

section \<open>AddField with the range operator\<close>

lemma length_2_conv: "length xs = 2 \<longleftrightarrow> (\<exists>a b. xs = [a, b])"
  by (cases xs; cases "tl xs") auto

lemma AddField_sqlOperatorRange_two:
  assumes "Split value '' to '' = [a, b]"
  shows "AddField o' name value sqlOperatorRange =
           Inr (o'\<lparr>fields' := fields' o' @
                  [\<lparr>Name = name, Value = a @ '' '' @ b, Operator = sqlOperatorRange\<rparr>]\<rparr>)"
  using assms by (simp add: AddField_def validateOperator_Range Range_not_Like Let_def)

lemma AddField_sqlOperatorRange_other:
  assumes "length (Split value '' to '') \<noteq> 2"
  shows "AddField o' name value sqlOperatorRange = Inl InvalidRange"
  using assms by (simp add: AddField_def validateOperator_Range Range_not_Like Let_def)

text \<open>
  Claim C3 (as amended). With the range operator, \<open>AddField\<close> fails with "invalid usage
  of operator rng" unless splitting the value at \<open>" to "\<close> gives exactly two parts;
  then it appends the entry whose value is the two parts joined by one space. Whether a
  part is empty is not looked at.
\<close>

theorem AddField_Range:
  "(length (Split value '' to '') \<noteq> 2 \<longrightarrow>
      AddField o' name value sqlOperatorRange = Inl InvalidRange) \<and>
   (\<forall>a b. Split value '' to '' = [a, b] \<longrightarrow>
      AddField o' name value sqlOperatorRange =
        Inr (o'\<lparr>fields' := fields' o' @
               [\<lparr>Name = name, Value = a @ '' '' @ b, Operator = sqlOperatorRange\<rparr>]\<rparr>))"
proof (intro conjI allI impI)
  have valid: "validateOperator sqlOperatorRange = None"
    by (simp add: validateOperator_def)
  have like: "sqlOperatorRange \<noteq> sqlOperatorLike"
    by (simp add: sqlOperator_defs)
  {
    assume "length (Split value '' to '') \<noteq> 2"
    with valid like show "AddField o' name value sqlOperatorRange = Inl InvalidRange"
      by (simp add: AddField_def Let_def)
  next
    fix a b
    assume "Split value '' to '' = [a, b]"
    with valid like show "AddField o' name value sqlOperatorRange =
        Inr (o'\<lparr>fields' := fields' o' @
               [\<lparr>Name = name, Value = a @ '' '' @ b, Operator = sqlOperatorRange\<rparr>]\<rparr>)"
      by (simp add: AddField_def Let_def)
  }
qed

text \<open>The theorem at a value with one separator and at a value with two.\<close>

theorem AddField_Range_witness:
  "AddField \<lparr>limit = 0, offset = 0, fields' = []\<rparr> ''age'' ''2020-01-01 to 2020-12-31''
       sqlOperatorRange =
     Inr \<lparr>limit = 0, offset = 0,
          fields' = [\<lparr>Name = ''age'', Value = ''2020-01-01 2020-12-31'',
                      Operator = ''BETWEEN''\<rparr>]\<rparr> \<and>
   AddField \<lparr>limit = 0, offset = 0, fields' = []\<rparr> ''age'' ''1 to 2 to 3'' sqlOperatorRange =
     Inl InvalidRange"
  using AddField_Range [of "''2020-01-01 to 2020-12-31''"
          "\<lparr>limit = 0, offset = 0, fields' = []\<rparr>" "''age''"]
        AddField_Range [of "''1 to 2 to 3''" "\<lparr>limit = 0, offset = 0, fields' = []\<rparr>" "''age''"]
  by (simp add: Split.simps sqlOperatorRange_def)

text \<open>
  The claim as written rejects a value with an empty side; the code stores \<open>" to b"\<close>
  as \<open>" b"\<close> and \<open>"a to "\<close> as \<open>"a "\<close>.
\<close>

theorem AddField_Range_empty_part_counterexample:
  "AddField \<lparr>limit = 0, offset = 0, fields' = []\<rparr> ''x'' '' to b'' sqlOperatorRange =
     Inr \<lparr>limit = 0, offset = 0,
          fields' = [\<lparr>Name = ''x'', Value = '' b'', Operator = ''BETWEEN''\<rparr>]\<rparr> \<and>
   AddField \<lparr>limit = 0, offset = 0, fields' = []\<rparr> ''x'' ''a to '' sqlOperatorRange =
     Inr \<lparr>limit = 0, offset = 0,
          fields' = [\<lparr>Name = ''x'', Value = ''a '', Operator = ''BETWEEN''\<rparr>]\<rparr>"
  by (simp add: AddField_def validateOperator_def ContainsAny_def sqlOperator_defs Split.simps)

section \<open>Storing a range and splitting it again\<close>

lemma Split_two:
  assumes "sep = c # sep'" and "c \<notin> set a" and "c \<notin> set b"
  shows "Split (a @ sep @ b) sep = [a, b]"
proof -
  have "Index b sep = None"
    using assms(1,3) by (intro Index_None [of c]) simp_all
  then have "Split b sep = [b]"
    using assms(1) by (intro Split_None) simp_all
  with Split_append [OF assms(1,2)] show ?thesis by simp
qed

text \<open>Only bounds without a space come back from the stored value.\<close>

lemma Split_space_two_iff:
  "Split (A @ '' '' @ B) '' '' = [A, B] \<longleftrightarrow> CHR '' '' \<notin> set A \<and> CHR '' '' \<notin> set B"
proof
  assume "CHR '' '' \<notin> set A \<and> CHR '' '' \<notin> set B"
  then show "Split (A @ '' '' @ B) '' '' = [A, B]"
    by (intro Split_two [where c = "CHR '' ''" and sep' = "[]"]) simp_all
next
  let ?P = "\<lambda>x. x \<noteq> CHR '' ''"
  assume eq: "Split (A @ '' '' @ B) '' '' = [A, B]"
  have "Split (A @ '' '' @ B) '' '' =
      takeWhile ?P (A @ '' '' @ B) # Split (tl (dropWhile ?P (A @ '' '' @ B))) '' ''"
    by (subst Split_char) simp
  with eq have hd: "takeWhile ?P (A @ '' '' @ B) = A"
    and tl: "Split (tl (dropWhile ?P (A @ '' '' @ B))) '' '' = [B]"
    by simp_all
  have A: "CHR '' '' \<notin> set A"
    using set_takeWhileD [of "CHR '' ''" ?P "A @ '' '' @ B"] hd by auto
  then have "dropWhile ?P (A @ '' '' @ B) = '' '' @ B"
    by (auto simp: dropWhile_append3)
  with tl have "Split B '' '' = [B]" by simp
  then have "length (Split B '' '') < 2" by simp
  then have "CHR '' '' \<notin> set B"
    using length_Split_char [of B "CHR '' ''"] by simp
  with A show "CHR '' '' \<notin> set A \<and> CHR '' '' \<notin> set B" ..
qed

text \<open>
  Bounds without a space do come back: \<open>A to B\<close> is stored as \<open>A B\<close>, which splits
  into \<open>A\<close> and \<open>B\<close>, and the condition is bound to them.
\<close>

lemma Range_roundtrip_no_space:
  assumes "CHR '' '' \<notin> set A" and "CHR '' '' \<notin> set B"
  shows "AddField o' name (A @ '' to '' @ B) sqlOperatorRange =
           Inr (o'\<lparr>fields' := fields' o' @
                  [\<lparr>Name = name, Value = A @ '' '' @ B, Operator = sqlOperatorRange\<rparr>]\<rparr>) \<and>
         Split (A @ '' '' @ B) '' '' = [A, B] \<and>
         Apply_fields [\<lparr>Name = name, Value = A @ '' '' @ B, Operator = sqlOperatorRange\<rparr>] tx =
           Inr (Where tx (name @ '' BETWEEN ? AND ?'') [A, B])"
proof -
  have to: "Split (A @ '' to '' @ B) '' to '' = [A, B]"
    using assms by (intro Split_two [where c = "CHR '' ''" and sep' = "''to ''"]) simp_all
  have sp: "Split (A @ '' '' @ B) '' '' = [A, B]"
    using assms by (intro Split_two [where c = "CHR '' ''" and sep' = "[]"]) simp_all
  have add: "AddField o' name (A @ '' to '' @ B) sqlOperatorRange =
           Inr (o'\<lparr>fields' := fields' o' @
                  [\<lparr>Name = name, Value = A @ '' '' @ B, Operator = sqlOperatorRange\<rparr>]\<rparr>)"
    by (rule AddField_sqlOperatorRange_two [OF to])
  have app: "Apply_fields [\<lparr>Name = name, Value = A @ '' '' @ B, Operator = sqlOperatorRange\<rparr>] tx =
           Inr (Where tx (name @ '' BETWEEN ? AND ?'') [A, B])"
    using sp by (simp add: Let_def sqlOperatorRange_def)
  from add sp app show ?thesis by (intro conjI)
qed

text \<open>
  Claim C4 says that a range \<open>A to B\<close>, once stored and split again, gives back
  \<open>A\<close> and \<open>B\<close>, also when a bound has a space inside. The code at
  \<open>New York to Boston\<close>: \<open>AddField\<close> finds two parts and stores
  \<open>New York Boston\<close>; the stored value splits into three pieces, not into
  \<open>New York\<close> and \<open>Boston\<close>, and the loop of \<open>Apply\<close> binds the condition to
  \<open>New\<close> and \<open>York\<close>.
\<close>

theorem Range_roundtrip_spaced_bound:
  "AddField \<lparr>limit = 0, offset = 0, fields' = []\<rparr> ''city'' ''New York to Boston''
       sqlOperatorRange =
     Inr \<lparr>limit = 0, offset = 0,
          fields' = [\<lparr>Name = ''city'', Value = ''New York Boston'', Operator = ''BETWEEN''\<rparr>]\<rparr> \<and>
   Split ''New York to Boston'' '' to '' = [''New York'', ''Boston''] \<and>
   Split ''New York Boston'' '' '' = [''New'', ''York'', ''Boston''] \<and>
   Apply_fields [\<lparr>Name = ''city'', Value = ''New York Boston'', Operator = ''BETWEEN''\<rparr>]
       \<lparr>conds = [], db_offset = None, db_limit = None\<rparr> =
     Inr \<lparr>conds = [(''city BETWEEN ? AND ?'', [''New'', ''York''])], db_offset = None,
          db_limit = None\<rparr>"
  by (simp add: AddField_def validateOperator_def ContainsAny_def sqlOperator_defs Split.simps
       Let_def Where_def)

section \<open>What a successful AddField appends\<close>

lemma AddField_Inr_fields:
  assumes "AddField o' name value operator = Inr o1"
  shows "\<exists>v. o1 = o'\<lparr>fields' := fields' o' @ [\<lparr>Name = name, Value = v, Operator = operator\<rparr>]\<rparr> \<and>
             (operator = sqlOperatorLike \<longrightarrow> CHR ''%'' \<in> set v) \<and>
             (operator = sqlOperatorRange \<longrightarrow> CHR '' '' \<in> set v)"
proof (cases "operator = sqlOperatorRange")
  case True
  show ?thesis
  proof (cases "length (Split value '' to '') = 2")
    case False
    from AddField_sqlOperatorRange_other [OF this, of o' name] assms True
    show ?thesis by simp
  next
    case two: True
    then obtain a b where "Split value '' to '' = [a, b]"
      unfolding length_2_conv by blast
    from AddField_sqlOperatorRange_two [OF this, of o' name] assms True
    have "o1 = o'\<lparr>fields' := fields' o' @
        [\<lparr>Name = name, Value = a @ '' '' @ b, Operator = operator\<rparr>]\<rparr>"
      by simp
    moreover have "CHR '' '' \<in> set (a @ '' '' @ b)" by simp
    ultimately show ?thesis
      using True Range_not_Like by blast
  qed
next
  case False
  with assms show ?thesis
    by (auto simp: AddField_def Let_def ContainsAny_percent split: option.splits if_splits)
qed

lemma AddField_like_ok:
  assumes "like_ok o'" and "AddField o' name value operator = Inr o1"
  shows "like_ok o1"
proof -
  from AddField_Inr_fields [OF assms(2)] obtain v where
    "o1 = o'\<lparr>fields' := fields' o' @ [\<lparr>Name = name, Value = v, Operator = operator\<rparr>]\<rparr>"
    and "operator = sqlOperatorLike \<longrightarrow> CHR ''%'' \<in> set v"
    by blast
  with assms(1) show ?thesis by (auto simp: like_ok_def)
qed

lemma AddField_range_ok:
  assumes "range_ok o'" and "AddField o' name value operator = Inr o1"
  shows "range_ok o1"
proof -
  from AddField_Inr_fields [OF assms(2)] obtain v where
    "o1 = o'\<lparr>fields' := fields' o' @ [\<lparr>Name = name, Value = v, Operator = operator\<rparr>]\<rparr>"
    and "operator = sqlOperatorRange \<longrightarrow> CHR '' '' \<in> set v"
    by blast
  with assms(1) show ?thesis by (auto simp: range_ok_def)
qed

section \<open>AddField with the pattern operator\<close>

text \<open>
  Claim C9. With the pattern operator \<open>AddField\<close> always succeeds; it stores the value
  between two \<open>%\<close> when the value holds none, and unchanged when it holds one. So
  every pattern entry of the options keeps holding a \<open>%\<close> whatever is added next.
\<close>

theorem AddField_Like:
  "AddField o' name value sqlOperatorLike =
     Inr (o'\<lparr>fields' := fields' o' @
            [\<lparr>Name = name,
              Value = (if CHR ''%'' \<in> set value then value else ''%'' @ value @ ''%''),
              Operator = sqlOperatorLike\<rparr>]\<rparr>) \<and>
   (like_ok o' \<longrightarrow> (\<forall>n v op o1. AddField o' n v op = Inr o1 \<longrightarrow> like_ok o1))"
proof
  show "AddField o' name value sqlOperatorLike =
     Inr (o'\<lparr>fields' := fields' o' @
            [\<lparr>Name = name,
              Value = (if CHR ''%'' \<in> set value then value else ''%'' @ value @ ''%''),
              Operator = sqlOperatorLike\<rparr>]\<rparr>)"
    using Range_not_Like
    by (simp add: AddField_def validateOperator_Like ContainsAny_percent Let_def)
  show "like_ok o' \<longrightarrow> (\<forall>n v op o1. AddField o' n v op = Inr o1 \<longrightarrow> like_ok o1)"
    using AddField_like_ok by blast
qed

text \<open>The theorem at \<open>John\<close>, which is wrapped, and at \<open>Jo%\<close>, which is kept.\<close>

theorem AddField_Like_witness:
  "AddField \<lparr>limit = 0, offset = 0, fields' = []\<rparr> ''name'' ''John'' sqlOperatorLike =
     Inr \<lparr>limit = 0, offset = 0,
          fields' = [\<lparr>Name = ''name'', Value = ''%John%'', Operator = ''ILIKE''\<rparr>]\<rparr> \<and>
   AddField \<lparr>limit = 0, offset = 0, fields' = []\<rparr> ''name'' ''Jo%'' sqlOperatorLike =
     Inr \<lparr>limit = 0, offset = 0,
          fields' = [\<lparr>Name = ''name'', Value = ''Jo%'', Operator = ''ILIKE''\<rparr>]\<rparr> \<and>
   like_ok \<lparr>limit = 0, offset = 0,
          fields' = [\<lparr>Name = ''name'', Value = ''%John%'', Operator = ''ILIKE''\<rparr>]\<rparr>"
proof -
  let ?e = "\<lparr>limit = 0, offset = 0, fields' = []\<rparr>"
  have e: "like_ok ?e" by (simp add: like_ok_def)
  have a: "AddField ?e ''name'' ''John'' sqlOperatorLike =
     Inr \<lparr>limit = 0, offset = 0,
          fields' = [\<lparr>Name = ''name'', Value = ''%John%'', Operator = ''ILIKE''\<rparr>]\<rparr>"
    using AddField_Like [of ?e "''name''" "''John''"] by (simp add: sqlOperatorLike_def)
  have b: "AddField ?e ''name'' ''Jo%'' sqlOperatorLike =
     Inr \<lparr>limit = 0, offset = 0,
          fields' = [\<lparr>Name = ''name'', Value = ''Jo%'', Operator = ''ILIKE''\<rparr>]\<rparr>"
    using AddField_Like [of ?e "''name''" "''Jo%''"] by (simp add: sqlOperatorLike_def)
  from AddField_Like [of ?e "''name''" "''John''"] e a
  have "like_ok \<lparr>limit = 0, offset = 0,
          fields' = [\<lparr>Name = ''name'', Value = ''%John%'', Operator = ''ILIKE''\<rparr>]\<rparr>"
    by blast
  with a b show ?thesis by (intro conjI)
qed

section \<open>When AddField fails\<close>

text \<open>
  Claim C10. \<open>AddField\<close> never looks at the field name. It returns an error exactly
  when the operator is none of the eight SQL symbols, or is the range symbol with a value
  that does not split into exactly two parts at \<open>" to "\<close>. In every other case it
  appends exactly one entry, under the name given, the empty name included, and leaves
  limit and offset alone.
\<close>

theorem AddField_error_iff:
  "((\<exists>err. AddField o' name value operator = Inl err) \<longleftrightarrow>
      operator \<notin> {sqlOperatorEqual, sqlOperatorNotEqual, sqlOperatorGreaterThan,
        sqlOperatorGreaterThanEqual, sqlOperatorLowerThan, sqlOperatorLowerThanEqual,
        sqlOperatorLike, sqlOperatorRange} \<or>
      operator = sqlOperatorRange \<and> length (Split value '' to '') \<noteq> 2) \<and>
   (\<forall>o1. AddField o' name value operator = Inr o1 \<longrightarrow>
      limit o1 = limit o' \<and> offset o1 = offset o' \<and>
      (\<exists>v. fields' o1 = fields' o' @ [\<lparr>Name = name, Value = v, Operator = operator\<rparr>]))"
proof (intro conjI allI impI)
  show "(\<exists>err. AddField o' name value operator = Inl err) \<longleftrightarrow>
      operator \<notin> {sqlOperatorEqual, sqlOperatorNotEqual, sqlOperatorGreaterThan,
        sqlOperatorGreaterThanEqual, sqlOperatorLowerThan, sqlOperatorLowerThanEqual,
        sqlOperatorLike, sqlOperatorRange} \<or>
      operator = sqlOperatorRange \<and> length (Split value '' to '') \<noteq> 2"
  proof (cases "validateOperator operator")
    case (Some err)
    then have "AddField o' name value operator = Inl err"
      by (simp add: AddField_def)
    moreover from Some have "validateOperator operator \<noteq> None" by simp
    ultimately show ?thesis
      unfolding validateOperator_None_iff by blast
  next
    case None
    note valid = validateOperator_None_iff [THEN iffD1, OF None]
    show ?thesis
    proof (cases "operator = sqlOperatorRange")
      case True
      show ?thesis
      proof (cases "length (Split value '' to '') = 2")
        case False
        from AddField_sqlOperatorRange_other [OF this, of o' name] True False
        show ?thesis by simp
      next
        case two: True
        then obtain a b where "Split value '' to '' = [a, b]"
          unfolding length_2_conv by blast
        from AddField_sqlOperatorRange_two [OF this, of o' name] True two valid
        show ?thesis by simp
      qed
    next
      case False
      then have "\<exists>o1. AddField o' name value operator = Inr o1"
        using None by (simp add: AddField_def Let_def)
      with False valid show ?thesis by auto
    qed
  qed
next
  fix o1 assume "AddField o' name value operator = Inr o1"
  from AddField_Inr_fields [OF this] obtain v where
    o1: "o1 = o'\<lparr>fields' := fields' o' @ [\<lparr>Name = name, Value = v, Operator = operator\<rparr>]\<rparr>"
    by blast
  then show "limit o1 = limit o'" and "offset o1 = offset o'"
    and "\<exists>v. fields' o1 = fields' o' @ [\<lparr>Name = name, Value = v, Operator = operator\<rparr>]"
    by simp_all
qed

text \<open>
  The theorem at the empty name: with \<open>=\<close> there is no error, with the code \<open>eq\<close>
  (not an SQL symbol) and with a range value without separator there is one.
\<close>

theorem AddField_error_iff_witness:
  "AddField \<lparr>limit = 3, offset = 4, fields' = []\<rparr> [] ''1'' sqlOperatorEqual \<noteq> Inl BadOperator \<and>
   AddField \<lparr>limit = 3, offset = 4, fields' = []\<rparr> [] ''1'' sqlOperatorEqual \<noteq> Inl InvalidRange \<and>
   (\<exists>err. AddField \<lparr>limit = 3, offset = 4, fields' = []\<rparr> [] ''1'' ''eq'' = Inl err) \<and>
   (\<exists>err. AddField \<lparr>limit = 3, offset = 4, fields' = []\<rparr> [] ''1'' sqlOperatorRange = Inl err)"
  using AddField_error_iff [of "\<lparr>limit = 3, offset = 4, fields' = []\<rparr>" "[]" "''1''" sqlOperatorEqual]
    AddField_error_iff [of "\<lparr>limit = 3, offset = 4, fields' = []\<rparr>" "[]" "''1''" "''eq''"]
    AddField_error_iff [of "\<lparr>limit = 3, offset = 4, fields' = []\<rparr>" "[]" "''1''" sqlOperatorRange]
  by (simp add: sqlOperator_defs Split.simps)

text \<open>The entry with the empty name that the first call appends.\<close>

lemma AddField_empty_name:
  "AddField \<lparr>limit = 3, offset = 4, fields' = []\<rparr> [] ''1'' sqlOperatorEqual =
     Inr \<lparr>limit = 3, offset = 4, fields' = [\<lparr>Name = [], Value = ''1'', Operator = ''=''\<rparr>]\<rparr>"
  by (simp add: AddField_def validateOperator_def ContainsAny_def sqlOperator_defs)

section \<open>Apply: when it returns, and what it returns\<close>

lemma take_2_nth: "2 \<le> length xs \<Longrightarrow> take 2 xs = [xs ! 0, xs ! 1]"
  by (cases xs; cases "tl xs") auto

lemma Apply_fields_Inr:
  assumes "\<forall>f \<in> set fs. Operator f = sqlOperatorRange \<longrightarrow> 2 \<le> length (Split (Value f) '' '')"
  shows "Apply_fields fs tx = Inr (tx\<lparr>conds := conds tx @ map Condition fs\<rparr>)"
  using assms
proof (induction fs arbitrary: tx)
  case Nil
  show ?case by simp
next
  case (Cons f fs)
  then have IH: "\<And>tx. Apply_fields fs tx = Inr (tx\<lparr>conds := conds tx @ map Condition fs\<rparr>)"
    by simp
  show ?case
  proof (cases "Operator f = sqlOperatorRange")
    case True
    with Cons.prems have len: "2 \<le> length (Split (Value f) '' '')" by simp
    then have "\<not> length (Split (Value f) '' '') < 2" by simp
    with True show ?thesis
      by (simp add: IH Let_def Where_def Condition_def take_2_nth [OF len])
  next
    case False
    then show ?thesis
      by (simp add: IH Where_def Condition_def)
  qed
qed

lemma Apply_fields_Inl:
  assumes "\<exists>f \<in> set fs. Operator f = sqlOperatorRange \<and> length (Split (Value f) '' '') < 2"
  shows "Apply_fields fs tx = Inl IndexOutOfRange"
  using assms
proof (induction fs arbitrary: tx)
  case Nil
  then show ?case by simp
next
  case (Cons g fs)
  show ?case
  proof (cases "Operator g = sqlOperatorRange \<and> length (Split (Value g) '' '') < 2")
    case True
    then show ?thesis by simp
  next
    case False
    with Cons.prems
    have "\<exists>f \<in> set fs. Operator f = sqlOperatorRange \<and> length (Split (Value f) '' '') < 2"
      by auto
    from Cons.IH [OF this] show ?thesis by (simp add: Let_def)
  qed
qed

lemma space_Split_length: "CHR '' '' \<in> set s \<longleftrightarrow> 2 \<le> length (Split s '' '')"
  using length_Split_char [of s "CHR '' ''"] by auto

lemma range_ok_Split:
  "range_ok o' \<longleftrightarrow>
     (\<forall>f \<in> set (fields' o'). Operator f = sqlOperatorRange \<longrightarrow> 2 \<le> length (Split (Value f) '' ''))"
  by (simp add: range_ok_def space_Split_length)

lemma Apply_range_ok:
  assumes "range_ok o'"
  shows "Apply o' tx =
           Inr (tx\<lparr>conds := conds tx @ map Condition (fields' o'),
                   db_offset := Some (offset o'),
                   db_limit := (if 0 < limit o' then Some (limit o') else db_limit tx)\<rparr>)"
proof -
  from assms have "Apply_fields (fields' o') tx =
      Inr (tx\<lparr>conds := conds tx @ map Condition (fields' o')\<rparr>)"
    by (intro Apply_fields_Inr) (simp add: range_ok_Split)
  then show ?thesis
    by (simp add: Apply_def Offset_def Limit_def)
qed

lemma Apply_not_range_ok:
  assumes "\<not> range_ok o'"
  shows "Apply o' tx = Inl IndexOutOfRange"
proof -
  from assms have "\<exists>f \<in> set (fields' o'). Operator f = sqlOperatorRange \<and>
      length (Split (Value f) '' '') < 2"
    by (auto simp: range_ok_Split)
  from Apply_fields_Inl [OF this] show ?thesis
    by (simp add: Apply_def)
qed

section \<open>Apply: offset and limit\<close>

text \<open>
  Claim C8. For options whose range entries hold a space, as \<open>AddField\<close> builds them
  (for any others \<open>Apply\<close> panics, see \<open>Apply_not_range_ok\<close>), \<open>Apply\<close> returns a
  transaction whose offset is the offset of the options, zero or not, and whose limit is
  the limit of the options when that is positive and is left as it was otherwise.
\<close>

theorem Apply_offset_limit:
  assumes "range_ok o'"
  shows "\<exists>tx1. Apply o' tx = Inr tx1 \<and> db_offset tx1 = Some (offset o') \<and>
           db_limit tx1 = (if 0 < limit o' then Some (limit o') else db_limit tx)"
  using Apply_range_ok [OF assms, of tx] by simp

text \<open>
  The theorem at the options without entries, limit 0 and offset 5, on a transaction
  without limit: offset 5 and still no limit.
\<close>

theorem Apply_offset_limit_witness:
  "range_ok \<lparr>limit = 0, offset = 5, fields' = []\<rparr> \<and>
   (\<exists>tx1. Apply \<lparr>limit = 0, offset = 5, fields' = []\<rparr>
            \<lparr>conds = [], db_offset = None, db_limit = None\<rparr> = Inr tx1 \<and>
          db_offset tx1 = Some 5 \<and> db_limit tx1 = None)"
proof -
  have ok: "range_ok \<lparr>limit = 0, offset = 5, fields' = []\<rparr>"
    by (simp add: range_ok_def)
  from Apply_offset_limit [OF ok, of "\<lparr>conds = [], db_offset = None, db_limit = None\<rparr>"] ok
  show ?thesis by simp
qed

section \<open>Apply: the conditions\<close>

text \<open>
  For options as \<open>AddField\<close> builds them, \<open>Apply_range_ok\<close> gives the conditions:
  one per entry, in the order of the entries, behind those the transaction had. Three
  entries, the second a range whose bounds have no space:
\<close>

lemma Apply_three_entries:
  "Apply \<lparr>limit = 10, offset = 0,
          fields' = [\<lparr>Name = ''age'', Value = ''30'', Operator = ''>''\<rparr>,
                     \<lparr>Name = ''created'', Value = ''2020-01-01 2020-12-31'',
                       Operator = ''BETWEEN''\<rparr>,
                     \<lparr>Name = ''status'', Value = ''1'', Operator = ''=''\<rparr>]\<rparr>
      \<lparr>conds = [], db_offset = None, db_limit = None\<rparr> =
   Inr \<lparr>conds = [(''age > ?'', [''30'']),
                  (''created BETWEEN ? AND ?'', [''2020-01-01'', ''2020-12-31'']),
                  (''status = ?'', [''1''])],
        db_offset = Some 0, db_limit = Some 10\<rparr>"
proof -
  let ?o = "\<lparr>limit = 10, offset = 0,
          fields' = [\<lparr>Name = ''age'', Value = ''30'', Operator = ''>''\<rparr>,
                     \<lparr>Name = ''created'', Value = ''2020-01-01 2020-12-31'',
                       Operator = ''BETWEEN''\<rparr>,
                     \<lparr>Name = ''status'', Value = ''1'', Operator = ''=''\<rparr>]\<rparr>"
  have sp: "Split ''2020-01-01 2020-12-31'' '' '' = [''2020-01-01'', ''2020-12-31'']"
    by (simp add: Split.simps)
  have ok: "range_ok ?o"
    by (simp add: range_ok_def sqlOperatorRange_def)
  from Apply_range_ok [OF ok, of "\<lparr>conds = [], db_offset = None, db_limit = None\<rparr>"]
  show ?thesis by (simp add: Condition_def sqlOperatorRange_def sp)
qed

text \<open>
  Claim C1 says that for a range entry the stored value splits at spaces into exactly
  two bound values, to which the condition is bound. The code at the options that
  \<open>AddField\<close> builds from the range \<open>a b to c\<close>: the bounds \<open>a b\<close> and \<open>c\<close> are
  stored as \<open>a b c\<close>, which splits into three pieces, and \<open>Apply\<close> binds the
  condition to \<open>a\<close> and \<open>b\<close>.
\<close>

theorem Apply_spaced_bound:
  "AddField \<lparr>limit = 0, offset = 0, fields' = []\<rparr> ''x'' ''a b to c'' sqlOperatorRange =
     Inr \<lparr>limit = 0, offset = 0,
          fields' = [\<lparr>Name = ''x'', Value = ''a b c'', Operator = ''BETWEEN''\<rparr>]\<rparr> \<and>
   length (Split ''a b c'' '' '') = 3 \<and>
   Apply \<lparr>limit = 0, offset = 0,
          fields' = [\<lparr>Name = ''x'', Value = ''a b c'', Operator = ''BETWEEN''\<rparr>]\<rparr>
       \<lparr>conds = [], db_offset = None, db_limit = None\<rparr> =
     Inr \<lparr>conds = [(''x BETWEEN ? AND ?'', [''a'', ''b''])], db_offset = Some 0,
          db_limit = None\<rparr>"
  by (simp add: AddField_def validateOperator_def ContainsAny_def sqlOperator_defs Split.simps
       Let_def Where_def Apply_def Offset_def)

section \<open>ParseStruct: what its result keeps true\<close>

lemma parseQuery_Name: "parseQuery name query = Inr field \<Longrightarrow> Name field = name"
  by (auto simp: parseQuery_def Let_def split: if_splits sum.splits)

lemma ParseStruct_field_cases:
  assumes "ParseStruct_field opt field = Inr opt1"
  shows "fields' opt1 = fields' opt \<or>
         (\<exists>name value operator. AddField opt name value operator = Inr opt1)"
  using assms
  by (auto simp: ParseStruct_field_def Let_def
           split: option.splits scalar.splits if_splits sum.splits)

lemma ParseStruct_field_range_ok:
  assumes "range_ok opt" and "ParseStruct_field opt field = Inr opt1"
  shows "range_ok opt1"
  using ParseStruct_field_cases [OF assms(2)] assms(1)
  by (auto simp: range_ok_def dest: AddField_range_ok [unfolded range_ok_def])

lemma ParseStruct_field_like_ok:
  assumes "like_ok opt" and "ParseStruct_field opt field = Inr opt1"
  shows "like_ok opt1"
  using ParseStruct_field_cases [OF assms(2)] assms(1)
  by (auto simp: like_ok_def dest: AddField_like_ok [unfolded like_ok_def])

lemma ParseStruct_loop_ok:
  assumes "range_ok opt \<and> like_ok opt" and "ParseStruct_loop data opt = Inr opt1"
  shows "range_ok opt1 \<and> like_ok opt1"
  using assms
proof (induction data arbitrary: opt)
  case Nil
  then show ?case by simp
next
  case (Cons field rest)
  from Cons.prems(2) obtain opt2 where
    step: "ParseStruct_field opt field = Inr opt2" and rest: "ParseStruct_loop rest opt2 = Inr opt1"
    by (auto split: sum.splits)
  from Cons.prems(1) step have "range_ok opt2 \<and> like_ok opt2"
    by (blast intro: ParseStruct_field_range_ok ParseStruct_field_like_ok)
  from Cons.IH [OF this rest] show ?case .
qed

lemma ParseStruct_range_ok: "ParseStruct data = Inr opt \<Longrightarrow> range_ok opt"
  using ParseStruct_loop_ok [of "\<lparr>limit = 0, offset = 0, fields' = []\<rparr>" data opt]
  by (simp add: ParseStruct_def range_ok_def like_ok_def)

lemma ParseStruct_like_ok: "ParseStruct data = Inr opt \<Longrightarrow> like_ok opt"
  using ParseStruct_loop_ok [of "\<lparr>limit = 0, offset = 0, fields' = []\<rparr>" data opt]
  by (simp add: ParseStruct_def range_ok_def like_ok_def)

lemma ParseStruct_Apply:
  assumes "ParseStruct data = Inr opt"
  shows "\<exists>tx1. Apply opt tx = Inr tx1"
  using Apply_range_ok [OF ParseStruct_range_ok [OF assms], of tx] by simp

section \<open>ParseStruct: fields that change nothing\<close>

lemma ParseStruct_loop_append:
  "ParseStruct_loop (pre @ post) opt =
     (case ParseStruct_loop pre opt of Inl err \<Rightarrow> Inl err | Inr opt1 \<Rightarrow> ParseStruct_loop post opt1)"
  by (induction pre arbitrary: opt) (auto split: sum.splits)

lemma ParseStruct_loop_skip:
  assumes "\<And>opt. ParseStruct_field opt field = Inr opt"
  shows "ParseStruct_loop (pre @ field # post) opt = ParseStruct_loop (pre @ post) opt"
  by (simp add: ParseStruct_loop_append assms split: sum.splits)

section \<open>ParseStruct: boolean fields\<close>

text \<open>
  For a field declared as a pointer to \<open>bool\<close>, \<open>ParseStruct\<close> hands
  \<open>operatorEqual\<close>, the query code \<open>eq\<close>, to \<open>AddField\<close>, which accepts the SQL
  symbols only. A field declared \<open>bool\<close> is not matched by the switch on the type and
  goes through \<open>parseQuery\<close>, where \<open>true\<close> and \<open>false\<close> have no colon.
\<close>

lemma AddField_operatorEqual: "AddField opt name value operatorEqual = Inl BadOperator"
  by (simp add: AddField_def validateOperator_def operatorEqual_def sqlOperator_defs)

lemma ParseStruct_field_bool_ptr:
  assumes "Tag field \<noteq> ''limit''" and "Tag field \<noteq> ''offset''"
    and "Exported field" and "FieldValue field = Ptr (VBool b)"
  shows "ParseStruct_field opt field = Inl BadOperator"
  using assms by (simp add: ParseStruct_field_def AddField_operatorEqual)

lemma parseQuery_no_colon:
  "CHR '':'' \<notin> set query \<Longrightarrow> parseQuery name query = Inl BadQuery"
  using length_Split_char [of query "CHR '':''"] by (simp add: parseQuery_def)

lemma ParseStruct_field_bool_plain:
  assumes "Tag field \<noteq> ''limit''" and "Tag field \<noteq> ''offset''"
    and "Exported field" and "FieldValue field = Plain (VBool b)"
  shows "ParseStruct_field opt field = Inl BadQuery"
  using assms by (simp add: ParseStruct_field_def parseQuery_no_colon)

text \<open>
  Claim C5 says that a present boolean field yields the entry \<open>(tag, =, "true")\<close>. The
  code at the record with the one exported field tagged \<open>active\<close>, declared as a
  pointer to \<open>bool\<close> and pointing to \<open>true\<close>, returns "bad operator"; declared
  \<open>bool\<close>, "bad query".
\<close>

theorem ParseStruct_bool_fails:
  "ParseStruct [\<lparr>Tag = ''active'', Exported = True, FieldValue = Ptr (VBool True)\<rparr>] =
     Inl BadOperator \<and>
   ParseStruct [\<lparr>Tag = ''active'', Exported = True, FieldValue = Plain (VBool True)\<rparr>] =
     Inl BadQuery"
  by (simp add: ParseStruct_def ParseStruct_field_bool_ptr ParseStruct_field_bool_plain)

section \<open>ParseStruct: fields that are not exported\<close>

text \<open>
  A field that is not exported and is not a nil pointer stops \<open>ParseStruct\<close> with the
  panic of \<open>Interface()\<close>, whatever its tag and its value.
\<close>

lemma ParseStruct_field_unexported:
  assumes "\<not> Exported field" and "Indirect (FieldValue field) = Some v"
  shows "ParseStruct_field opt field = Inl UnexportedField"
  using assms by (simp add: ParseStruct_field_def)

lemma ParseStruct_field_Inr_exported:
  assumes "ParseStruct_field opt field = Inr opt1"
  shows "Indirect (FieldValue field) = None \<or> Exported field"
proof (cases "Indirect (FieldValue field)")
  case None
  then show ?thesis by simp
next
  case (Some v)
  have "Exported field"
  proof (rule ccontr)
    assume "\<not> Exported field"
    from ParseStruct_field_unexported [OF this Some, of opt] assms
    show False by simp
  qed
  then show ?thesis by simp
qed

section \<open>ParseStruct: fields with an empty tag\<close>

text \<open>
  Claim C6 (as amended). A field whose tag is empty never gives a pagination value: a
  step that succeeds on it leaves limit and offset as they were. It is ignored, the
  result being that of the record without it, when its value is a nil pointer, or when
  it is exported, not declared as a pointer to \<open>bool\<close>, and its string form is empty.
  An exported field with empty tag, not declared as a pointer to \<open>bool\<close>, whose string
  form is not empty is parsed like any other, under the empty name: \<open>parseQuery\<close> on
  the string form, and \<open>AddField\<close> on what it returns.
\<close>

theorem ParseStruct_empty_tag:
  assumes "Tag field = []"
  shows "(\<forall>opt opt1. ParseStruct_field opt field = Inr opt1 \<longrightarrow>
            limit opt1 = limit opt \<and> offset opt1 = offset opt) \<and>
         (Indirect (FieldValue field) = None \<or>
          Exported field \<and> \<not> IsBoolPtr (FieldValue field) \<and>
            (\<exists>v. Indirect (FieldValue field) = Some v \<and> Sprint v = []) \<longrightarrow>
            ParseStruct (pre @ field # post) = ParseStruct (pre @ post)) \<and>
         (\<forall>opt v. Exported field \<and> \<not> IsBoolPtr (FieldValue field) \<and>
            Indirect (FieldValue field) = Some v \<and> Sprint v \<noteq> [] \<longrightarrow>
            ParseStruct_field opt field =
              (case parseQuery [] (Sprint v) of
                 Inl err \<Rightarrow> Inl err
               | Inr f \<Rightarrow> AddField opt [] (Value f) (Operator f)))"
proof (intro conjI allI impI)
  fix opt opt1
  assume step: "ParseStruct_field opt field = Inr opt1"
  have "limit opt1 = limit opt \<and> offset opt1 = offset opt"
  proof (cases "Indirect (FieldValue field)")
    case None
    with step show ?thesis by (simp add: ParseStruct_field_def)
  next
    case (Some v)
    with ParseStruct_field_Inr_exported [OF step] have exported: "Exported field"
      by simp
    show ?thesis
    proof (cases "IsBoolPtr (FieldValue field)")
      case True
      with step Some assms exported show ?thesis
        by (simp add: ParseStruct_field_def AddField_operatorEqual)
    next
      case False
      show ?thesis
      proof (cases "Sprint v = []")
        case True
        with step Some False assms exported show ?thesis
          by (simp add: ParseStruct_field_def)
      next
        case nonempty: False
        with step Some False assms exported obtain f :: Field where
          "AddField opt (Name f) (Value f) (Operator f) = Inr opt1"
          by (auto simp: ParseStruct_field_def split: sum.splits)
        from AddField_Inr_fields [OF this] show ?thesis by auto
      qed
    qed
  qed
  then show "limit opt1 = limit opt" and "offset opt1 = offset opt" by simp_all
next
  assume skip: "Indirect (FieldValue field) = None \<or>
          Exported field \<and> \<not> IsBoolPtr (FieldValue field) \<and>
            (\<exists>v. Indirect (FieldValue field) = Some v \<and> Sprint v = [])"
  have "ParseStruct_field opt field = Inr opt" for opt
    using skip assms by (auto simp: ParseStruct_field_def)
  then show "ParseStruct (pre @ field # post) = ParseStruct (pre @ post)"
    unfolding ParseStruct_def by (rule ParseStruct_loop_skip)
next
  fix opt v
  assume h: "Exported field \<and> \<not> IsBoolPtr (FieldValue field) \<and>
            Indirect (FieldValue field) = Some v \<and> Sprint v \<noteq> []"
  have "(case parseQuery [] (Sprint v) of
                 Inl err \<Rightarrow> Inl err
               | Inr f \<Rightarrow> AddField opt (Name f) (Value f) (Operator f)) =
        (case parseQuery [] (Sprint v) of
                 Inl err \<Rightarrow> Inl err
               | Inr f \<Rightarrow> AddField opt [] (Value f) (Operator f))"
    by (auto split: sum.splits dest: parseQuery_Name)
  with h assms show "ParseStruct_field opt field =
              (case parseQuery [] (Sprint v) of
                 Inl err \<Rightarrow> Inl err
               | Inr f \<Rightarrow> AddField opt [] (Value f) (Operator f))"
    by (simp add: ParseStruct_field_def)
qed

text \<open>
  The theorem at an exported field with empty tag and empty string between two others,
  at a nil pointer that is not exported, and at an exported field with empty tag and the
  value \<open>eq:1\<close>.
\<close>

theorem ParseStruct_empty_tag_witness:
  "ParseStruct [\<lparr>Tag = ''limit'', Exported = True, FieldValue = Plain (VInt 7)\<rparr>,
                \<lparr>Tag = [], Exported = True, FieldValue = Plain (VString [])\<rparr>,
                \<lparr>Tag = ''age'', Exported = True, FieldValue = Plain (VString ''gt:30'')\<rparr>] =
   ParseStruct [\<lparr>Tag = ''limit'', Exported = True, FieldValue = Plain (VInt 7)\<rparr>,
                \<lparr>Tag = ''age'', Exported = True, FieldValue = Plain (VString ''gt:30'')\<rparr>] \<and>
   ParseStruct [\<lparr>Tag = [], Exported = False, FieldValue = NilPtr TString\<rparr>] = ParseStruct [] \<and>
   ParseStruct_field \<lparr>limit = 0, offset = 0, fields' = []\<rparr>
       \<lparr>Tag = [], Exported = True, FieldValue = Plain (VString ''eq:1'')\<rparr> =
     (case parseQuery [] ''eq:1'' of
        Inl err \<Rightarrow> Inl err
      | Inr f \<Rightarrow> AddField \<lparr>limit = 0, offset = 0, fields' = []\<rparr> [] (Value f) (Operator f))"
  using ParseStruct_empty_tag
          [of "\<lparr>Tag = [], Exported = True, FieldValue = Plain (VString [])\<rparr>"
              "[\<lparr>Tag = ''limit'', Exported = True, FieldValue = Plain (VInt 7)\<rparr>]"
              "[\<lparr>Tag = ''age'', Exported = True, FieldValue = Plain (VString ''gt:30'')\<rparr>]"]
        ParseStruct_empty_tag
          [of "\<lparr>Tag = [], Exported = False, FieldValue = NilPtr TString\<rparr>" "[]" "[]"]
        ParseStruct_empty_tag
          [of "\<lparr>Tag = [], Exported = True, FieldValue = Plain (VString ''eq:1'')\<rparr>"]
  by simp

text \<open>
  The exported field with empty tag and value \<open>eq:1\<close> contributes an entry with the
  empty name; with the value \<open>abc\<close> it makes \<open>ParseStruct\<close> fail; and a field with
  empty tag that is not exported makes it panic, even with the empty string as value.
\<close>

theorem ParseStruct_empty_tag_counterexample:
  "ParseStruct [\<lparr>Tag = [], Exported = True, FieldValue = Plain (VString ''eq:1'')\<rparr>] =
     Inr \<lparr>limit = 0, offset = 0, fields' = [\<lparr>Name = [], Value = ''1'', Operator = ''=''\<rparr>]\<rparr> \<and>
   ParseStruct [\<lparr>Tag = [], Exported = True, FieldValue = Plain (VString ''abc'')\<rparr>] =
     Inl BadQuery \<and>
   ParseStruct [\<lparr>Tag = [], Exported = False, FieldValue = Plain (VString [])\<rparr>] =
     Inl UnexportedField"
  by (simp add: ParseStruct_def ParseStruct_field_def parseQuery_def Split.simps
        convertOperator_def operator_defs AddField_def validateOperator_def
        sqlOperator_defs ContainsAny_def)

end
